theory Spec2Isabelle
  imports Complex_Main "HOL-Library.List_Lexorder" "HOL-Library.Char_ord"
    "HOL-Library.Product_Lexorder"
begin

section \<open>Data model of \<^verbatim>\<open>scripts/backfill_snapshots.py\<close>\<close>

text \<open>
  The script works on pandas data frames.  A data frame is modelled as the list of its
  rows, in row order.  A numeric cell is a \<open>rat option\<close>: \<open>None\<close> is the missing value
  (NaN) that a left merge leaves where the right table has no match, \<open>Some x\<close> a number.
  Campaign ids are integers.  The date type is a parameter of the tables: the script
  holds dates as ISO strings, whose order is the calendar order.
\<close>

type_synonym campaign_id = int
type_synonym val = "rat option"

text \<open>The three columns \<^verbatim>\<open>name\<close> ranges over in \<^verbatim>\<open>main\<close>.\<close>

datatype attr = Budget_amount | Target_cpa | Target_roas

text \<open>
  What the run can raise: \<^verbatim>\<open>astype(int)\<close> on a column holding a missing value, and
  the two outcomes of a failed write (\<^verbatim>\<open>Conflict\<close>, and every other exception of the
  destination).
\<close>

datatype error = IntCastingNaNError | Conflict | Sink_failure

text \<open>A row of the change history report, with the columns the script reads.\<close>

record change_history =
  change_date :: string
  campaign_id :: campaign_id
  old_budget_amount :: val
  new_budget_amount :: val
  old_target_cpa :: val
  new_target_cpa :: val

text \<open>A row of the \<^verbatim>\<open>bid_budget\<close> table (the current values).\<close>

record bid_budget =
  cur_campaign_id :: campaign_id
  budget_amount :: val
  target_cpa :: val
  target_roas :: val

text \<open>
  Placeholder rows are \<open>(campaign_id, date)\<close>; a normalized change is indexed by
  \<open>(date, campaign_id)\<close> and carries \<open>(value_old, value_new)\<close>; a restored row is
  \<open>(date, campaign_id, value)\<close>; a row of the combined history is
  \<open>(date, campaign_id, budget_amount, target_cpa, target_roas)\<close>.
\<close>

type_synonym 'd placeholder = "campaign_id \<times> 'd"
type_synonym 'd change = "('d \<times> campaign_id) \<times> val \<times> val"
type_synonym 'd restored = "'d \<times> campaign_id \<times> val"
type_synonym 'd wide = "'d \<times> campaign_id \<times> val \<times> val \<times> val"

section \<open>The pandas operations the script uses\<close>

text \<open>
  \<^verbatim>\<open>pd.merge(left, right, on=..., how="left")\<close>: every left row, in order, once per
  matching right row (in the right table's order), or once with no right row.
\<close>

definition merge_left ::
  "('l \<Rightarrow> 'k) \<Rightarrow> ('r \<Rightarrow> 'k) \<Rightarrow> 'l list \<Rightarrow> 'r list \<Rightarrow> ('l \<times> 'r option) list" where
  "merge_left lkey rkey left right =
     concat (map (\<lambda>l. case filter (\<lambda>r. rkey r = lkey l) right of
                          [] \<Rightarrow> [(l, None)]
                        | m # ms \<Rightarrow> map (\<lambda>r. (l, Some r)) (m # ms)) left)"

text \<open>
  \<^verbatim>\<open>groupby(key)[col].ffill()\<close>: scanning the rows in order, a missing cell takes the
  last value seen in a row of the same group; \<open>seen\<close> holds that value per group.
  \<^verbatim>\<open>bfill\<close> is the same scan from the last row to the first.
\<close>

fun ffill :: "('r \<Rightarrow> 'g) \<Rightarrow> ('r \<Rightarrow> val) \<Rightarrow> ('g \<rightharpoonup> rat) \<Rightarrow> 'r list \<Rightarrow> val list" where
  "ffill key col seen [] = []"
| "ffill key col seen (r # rows) =
     (case col r of
        None \<Rightarrow> seen (key r) # ffill key col seen rows
      | Some v \<Rightarrow> Some v # ffill key col (seen(key r \<mapsto> v)) rows)"

definition groupby_ffill :: "('r \<Rightarrow> 'g) \<Rightarrow> ('r \<Rightarrow> val) \<Rightarrow> 'r list \<Rightarrow> val list" where
  "groupby_ffill key col rows = ffill key col Map.empty rows"

definition groupby_bfill :: "('r \<Rightarrow> 'g) \<Rightarrow> ('r \<Rightarrow> val) \<Rightarrow> 'r list \<Rightarrow> val list" where
  "groupby_bfill key col rows = rev (ffill key col Map.empty (rev rows))"

text \<open>\<^verbatim>\<open>fillna(other)\<close>, cell by cell.\<close>

definition fillna :: "val \<Rightarrow> val \<Rightarrow> val" where
  "fillna v other = (case v of None \<Rightarrow> other | Some x \<Rightarrow> Some x)"

text \<open>
  \<^verbatim>\<open>astype(int)\<close> on a float column: raises when a cell is missing, otherwise drops
  the fractional part of every cell (towards zero).
\<close>

definition trunc :: "rat \<Rightarrow> int" where
  "trunc x = (if 0 \<le> x then \<lfloor>x\<rfloor> else \<lceil>x\<rceil>)"

definition astype_int :: "val list \<Rightarrow> error + val list" where
  "astype_int col =
     (if None \<in> set col then Inl IntCastingNaNError
      else Inr (map (map_option (\<lambda>x. of_int (trunc x))) col))"

text \<open>
  \<^verbatim>\<open>groupby(...).last()\<close>: per group and per column, the last cell that is not
  missing (missing when the group has none).
\<close>

definition last_valid :: "val list \<Rightarrow> val" where
  "last_valid col = (case filter (\<lambda>v. v \<noteq> None) col of [] \<Rightarrow> None | v # vs \<Rightarrow> last (v # vs))"

text \<open>
  \<^verbatim>\<open>str.split()[0]\<close>: the first whitespace-delimited token of a string (the empty
  string stands for a string with no token).
\<close>

definition is_space :: "char \<Rightarrow> bool" where
  "is_space c = (of_char c \<in> {9, 10, 11, 12, 13, 28, 29, 30, 31, 32 :: nat})"

definition first_token :: "string \<Rightarrow> string" where
  "first_token s = takeWhile (\<lambda>c. \<not> is_space c) (dropWhile is_space s)"

section \<open>\<^verbatim>\<open>restore_history\<close>\<close>

definition column :: "attr \<Rightarrow> bid_budget option \<Rightarrow> val" where
  "column name row =
     (case row of
        None \<Rightarrow> None
      | Some cv \<Rightarrow> (case name of
                     Budget_amount \<Rightarrow> budget_amount cv
                   | Target_cpa \<Rightarrow> target_cpa cv
                   | Target_roas \<Rightarrow> target_roas cv))"

definition value_old :: "'l \<times> 'd change option \<Rightarrow> val" where
  "value_old row = (case snd row of None \<Rightarrow> None | Some (_, old, _) \<Rightarrow> old)"

definition value_new :: "'l \<times> 'd change option \<Rightarrow> val" where
  "value_new row = (case snd row of None \<Rightarrow> None | Some (_, _, new) \<Rightarrow> new)"

text \<open>
  The first branch of \<^verbatim>\<open>restore_history\<close> up to the merge with the current values:
  the placeholder rows with the column \<^verbatim>\<open>filled_forward\<close>.
\<close>

definition fill_history :: "'d placeholder list \<Rightarrow> 'd change list \<Rightarrow> ('d placeholder \<times> val) list" where
  "fill_history placeholder_df partial_history =
     (let joined = merge_left (\<lambda>(c, d). (c, d)) (\<lambda>((d, c), _). (c, d))
                     placeholder_df partial_history;
          filled_backward = groupby_bfill (\<lambda>row. fst (fst row)) value_old joined;
          filled_forward = groupby_ffill (\<lambda>row. fst (fst row)) value_new joined;
          filled_forward = map2 fillna filled_forward filled_backward
      in zip (map fst joined) filled_forward)"

text \<open>Both branches up to the cast: the rows with the column \<^verbatim>\<open>name\<close>.\<close>

definition fill_or_current ::
  "'d placeholder list \<Rightarrow> 'd change list \<Rightarrow> bid_budget list \<Rightarrow> attr \<Rightarrow> ('d placeholder \<times> val) list" where
  "fill_or_current placeholder_df partial_history current_values name =
     (if partial_history \<noteq> [] then
        map (\<lambda>((p, filled_forward), cv).
               (p, case filled_forward of None \<Rightarrow> column name cv | Some v \<Rightarrow> Some v))
          (merge_left (\<lambda>(p, _). fst p) cur_campaign_id
             (fill_history placeholder_df partial_history) current_values)
      else
        map (\<lambda>(p, cv). (p, column name cv))
          (merge_left fst cur_campaign_id placeholder_df current_values))"

definition restore_history ::
  "'d placeholder list \<Rightarrow> 'd change list \<Rightarrow> bid_budget list \<Rightarrow> attr \<Rightarrow> error + 'd restored list" where
  "restore_history placeholder_df partial_history current_values name =
     (let joined = fill_or_current placeholder_df partial_history current_values name
      in if name \<noteq> Target_roas then
           (case astype_int (map snd joined) of
              Inl e \<Rightarrow> Inl e
            | Inr col \<Rightarrow> Inr (map2 (\<lambda>(p, _) v. (snd p, fst p, v)) joined col))
         else Inr (map (\<lambda>(p, v). (snd p, fst p, v)) joined))"

section \<open>\<^verbatim>\<open>format_partial_change_history\<close>\<close>

text \<open>
  The argument \<^verbatim>\<open>dimension_name\<close> selects the columns \<^verbatim>\<open>old_<name>\<close> and
  \<^verbatim>\<open>new_<name>\<close>; the model takes the two columns.  The groups come out sorted by
  \<open>(date, campaign_id)\<close>.  \<^verbatim>\<open>main\<close> calls the function on non-empty tables only.
\<close>

definition format_partial_change_history ::
  "change_history list \<Rightarrow> (change_history \<Rightarrow> val) \<Rightarrow> (change_history \<Rightarrow> val) \<Rightarrow> string change list" where
  "format_partial_change_history df old_col new_col =
     (let rows = map (\<lambda>r. ((first_token (change_date r), campaign_id r), old_col r, new_col r)) df
      in map (\<lambda>k. (k, last_valid (map (\<lambda>(_, old, _). old) (filter (\<lambda>row. fst row = k) rows)),
                        last_valid (map (\<lambda>(_, _, new). new) (filter (\<lambda>row. fst row = k) rows))))
           (sort (remdups (map fst rows))))"

section \<open>\<^verbatim>\<open>main\<close>\<close>

text \<open>\<^verbatim>\<open>column > 0\<close> on a cell: false on a missing value.\<close>

definition positive :: "val \<Rightarrow> bool" where
  "positive v = (case v of None \<Rightarrow> False | Some x \<Rightarrow> 0 < x)"

definition budget_rows :: "change_history list \<Rightarrow> change_history list" where
  "budget_rows change_history =
     filter (\<lambda>r. positive (old_budget_amount r) \<and> positive (new_budget_amount r)) change_history"

definition bid_rows :: "change_history list \<Rightarrow> change_history list" where
  "bid_rows change_history = filter (\<lambda>r. positive (old_target_cpa r)) change_history"

text \<open>
  \<^verbatim>\<open>budgets\<close> and \<^verbatim>\<open>bids\<close> as \<^verbatim>\<open>restore_history\<close> receives them: normalized when
  the filter keeps a row, the empty table otherwise.
\<close>

definition budgets :: "change_history list \<Rightarrow> string change list" where
  "budgets change_history =
     (if budget_rows change_history \<noteq> []
      then format_partial_change_history (budget_rows change_history)
             old_budget_amount new_budget_amount
      else [])"

definition bids :: "change_history list \<Rightarrow> string change list" where
  "bids change_history =
     (if bid_rows change_history \<noteq> []
      then format_partial_change_history (bid_rows change_history)
             old_target_cpa new_target_cpa
      else [])"

text \<open>
  The window: \<open>now\<close> is the day number of the run's current date, \<open>strftime\<close> the
  formatting of a day as \<^verbatim>\<open>%Y-%m-%d\<close>; \<^verbatim>\<open>pd.date_range\<close> includes both ends.
\<close>

definition date_range :: "int \<Rightarrow> int \<Rightarrow> int list" where
  "date_range first_day last_day = [first_day..last_day]"

definition dates :: "(int \<Rightarrow> 'd) \<Rightarrow> int \<Rightarrow> 'd list" where
  "dates strftime now = map strftime (date_range (now - 29) (now - 1))"

definition placeholders :: "campaign_id list \<Rightarrow> 'd list \<Rightarrow> 'd placeholder list" where
  "placeholders campaign_ids ds = List.product campaign_ids ds"

text \<open>The two merges of the \<^verbatim>\<open>reduce\<close>, on \<open>(date, campaign_id)\<close>.\<close>

definition restored_key :: "'d restored \<Rightarrow> 'd \<times> campaign_id" where
  "restored_key row = (fst row, fst (snd row))"

definition restored_val :: "'d restored option \<Rightarrow> val" where
  "restored_val row = (case row of None \<Rightarrow> None | Some (_, _, v) \<Rightarrow> v)"

definition combine :: "'d restored list \<Rightarrow> 'd restored list \<Rightarrow> 'd restored list \<Rightarrow> 'd wide list" where
  "combine restored_budgets restored_target_cpas restored_target_roas =
     map (\<lambda>(((d, c, budget), cpa), roas). (d, c, budget, restored_val cpa, restored_val roas))
       (merge_left (\<lambda>(row, _). restored_key row) restored_key
          (merge_left restored_key restored_key restored_budgets restored_target_cpas)
          restored_target_roas)"

definition restored_bid_budget_history ::
  "'d placeholder list \<Rightarrow> 'd change list \<Rightarrow> 'd change list \<Rightarrow> bid_budget list \<Rightarrow> error + 'd wide list" where
  "restored_bid_budget_history placeholder_df budget_events bid_events current_bids_budgets =
     (case restore_history placeholder_df budget_events current_bids_budgets Budget_amount of
        Inl e \<Rightarrow> Inl e
      | Inr restored_budgets \<Rightarrow>
     (case restore_history placeholder_df bid_events current_bids_budgets Target_cpa of
        Inl e \<Rightarrow> Inl e
      | Inr restored_target_cpas \<Rightarrow>
     (case restore_history placeholder_df bid_events current_bids_budgets Target_roas of
        Inl e \<Rightarrow> Inl e
      | Inr restored_target_roas \<Rightarrow>
          Inr (combine restored_budgets restored_target_cpas restored_target_roas))))"

section \<open>The per-date writes\<close>

text \<open>
  The destination: the dated tables that exist, with their rows, and the table ids on
  which the destination fails for a reason other than the table's existence.
\<close>

record sink =
  tables :: "string \<rightharpoonup> string wide list"
  failing :: "string set"

text \<open>
  Modelled from the spec: \<^verbatim>\<open>write_data_to_bq\<close> of \<^verbatim>\<open>src/utils.py\<close>, which is not
  among the sources, called with \<^verbatim>\<open>write_disposition="WRITE_EMPTY"\<close>.  The spec's Sink
  "supports create-if-absent semantics and signals a distinguishable "already exists"
  condition versus all other failures": the write creates the table with the rows when
  the table is absent, raises \<^verbatim>\<open>Conflict\<close> when it exists, and raises another
  exception when the destination fails otherwise.
\<close>

definition write_data_to_bq :: "sink \<Rightarrow> string wide list \<Rightarrow> string \<Rightarrow> error + sink" where
  "write_data_to_bq bq_client data table_id =
     (if table_id \<in> failing bq_client then Inl Sink_failure
      else if tables bq_client table_id \<noteq> None then Inl Conflict
      else Inr (bq_client\<lparr>tables := (tables bq_client)(table_id \<mapsto> data)\<rparr>))"

text \<open>\<^verbatim>\<open>f"{bq_project}.{bq_dataset}.bid_budgets_{date.replace('-','')}"\<close>\<close>

definition table_name :: "string \<Rightarrow> string \<Rightarrow> string \<Rightarrow> string" where
  "table_name bq_project bq_dataset date =
     bq_project @ ''.'' @ bq_dataset @ ''.bid_budgets_'' @ filter (\<lambda>c. c \<noteq> CHR ''-'') date"

text \<open>
  The loop over the dates.  The state is the destination and the warnings logged so far
  (the table ids reported as already existing); an exception other than
  \<^verbatim>\<open>Conflict\<close> leaves the loop.
\<close>

fun write_dates ::
  "string \<Rightarrow> string \<Rightarrow> string wide list \<Rightarrow> sink \<Rightarrow> string list \<Rightarrow> string list
     \<Rightarrow> error + (sink \<times> string list)" where
  "write_dates bq_project bq_dataset history bq_client warnings [] = Inr (bq_client, warnings)"
| "write_dates bq_project bq_dataset history bq_client warnings (date # ds) =
     (let daily_history = filter (\<lambda>row. fst row = date) history;
          table_id = table_name bq_project bq_dataset date
      in case write_data_to_bq bq_client daily_history table_id of
           Inr written \<Rightarrow> write_dates bq_project bq_dataset history written warnings ds
         | Inl Conflict \<Rightarrow>
             write_dates bq_project bq_dataset history bq_client (warnings @ [table_id]) ds
         | Inl e \<Rightarrow> Inl e)"

text \<open>
  The run: the inputs read at the start (the change history report, the active campaign
  ids, the current values), the restored history, the writes.
\<close>

definition main ::
  "(int \<Rightarrow> string) \<Rightarrow> int \<Rightarrow> string \<Rightarrow> string \<Rightarrow> change_history list \<Rightarrow> campaign_id list
     \<Rightarrow> bid_budget list \<Rightarrow> sink \<Rightarrow> error + (sink \<times> string list)" where
  "main strftime now bq_project bq_dataset change_history campaign_ids current_bids_budgets
     bq_client =
     (let ds = dates strftime now;
          placeholder_df = placeholders campaign_ids ds
      in case restored_bid_budget_history placeholder_df (budgets change_history)
                (bids change_history) current_bids_budgets of
           Inl e \<Rightarrow> Inl e
         | Inr history \<Rightarrow> write_dates bq_project bq_dataset history bq_client [] ds)"

text \<open>The cells of a restored table at one date and campaign.\<close>

definition cells :: "'d restored list \<Rightarrow> 'd \<Rightarrow> campaign_id \<Rightarrow> val list" where
  "cells restored d c = map (\<lambda>(_, _, v). v) (filter (\<lambda>row. restored_key row = (d, c)) restored)"


text \<open>The first merge of \<^verbatim>\<open>restore_history\<close>.\<close>

abbreviation joined_with :: "'d placeholder list \<Rightarrow> 'd change list \<Rightarrow> ('d placeholder \<times> 'd change option) list" where
  "joined_with ph hist \<equiv> merge_left (\<lambda>(c, d). (c, d)) (\<lambda>((d, c), _). (c, d)) ph hist"

section \<open>Left merges\<close>

lemma merge_left_Nil: "merge_left lk rk [] right = []"
  by (simp add: merge_left_def)

lemma merge_left_Cons:
  "merge_left lk rk (l # ls) right =
     (case filter (\<lambda>r. rk r = lk l) right of
        [] \<Rightarrow> [(l, None)]
      | m # ms \<Rightarrow> map (\<lambda>r. (l, Some r)) (m # ms)) @ merge_left lk rk ls right"
  by (simp add: merge_left_def)

lemma merge_left_append:
  "merge_left lk rk (xs @ ys) right = merge_left lk rk xs right @ merge_left lk rk ys right"
  by (simp add: merge_left_def)

lemma set_merge_left:
  "set (merge_left lk rk left right) =
     {(l, None) | l. l \<in> set left \<and> (\<forall>r\<in>set right. rk r \<noteq> lk l)} \<union>
     {(l, Some r) | l r. l \<in> set left \<and> r \<in> set right \<and> rk r = lk l}"
proof (induction left)
  case Nil
  show ?case by (simp add: merge_left_Nil)
next
  case (Cons l ls)
  show ?case
  proof (cases "filter (\<lambda>r. rk r = lk l) right")
    case Nil
    then have none: "\<forall>r\<in>set right. rk r \<noteq> lk l"
      by (simp add: filter_empty_conv)
    show ?thesis
      using none by (auto simp: merge_left_Cons Nil Cons.IH)
  next
    case (Cons m ms)
    have ms: "set (m # ms) = {r \<in> set right. rk r = lk l}"
      using Cons by (metis set_filter)
    then have some: "\<exists>r\<in>set right. rk r = lk l"
      by auto
    show ?thesis
      unfolding merge_left_Cons Cons list.case set_append set_map ms Cons.IH
      using some by auto
  qed
qed

lemma fst_set_merge_left: "fst ` set (merge_left lk rk left right) = set left"
proof -
  have "\<And>l. l \<in> set left \<Longrightarrow> l \<in> fst ` set (merge_left lk rk left right)"
  proof -
    fix l assume l: "l \<in> set left"
    show "l \<in> fst ` set (merge_left lk rk left right)"
    proof (cases "\<forall>r\<in>set right. rk r \<noteq> lk l")
      case True
      then have "(l, None) \<in> set (merge_left lk rk left right)"
        using l by (simp add: set_merge_left)
      then show ?thesis by force
    next
      case False
      then obtain r where "r \<in> set right" "rk r = lk l" by auto
      then have "(l, Some r) \<in> set (merge_left lk rk left right)"
        using l by (simp add: set_merge_left)
      then show ?thesis by force
    qed
  qed
  moreover have "fst ` set (merge_left lk rk left right) \<subseteq> set left"
    by (auto simp: set_merge_left)
  ultimately show ?thesis by auto
qed


lemma merge_left_unique:
  assumes "distinct (map rk right)"
  shows "map fst (merge_left lk rk left right) = left"
proof -
  have one: "\<And>k. length (filter (\<lambda>r. rk r = k) right) \<le> 1"
    using assms by (induction right) (auto simp: filter_empty_conv image_iff)
  show ?thesis
  proof (induction left)
    case Nil
    show ?case by (simp add: merge_left_Nil)
  next
    case (Cons l ls)
    show ?case
      using one [of "lk l"] Cons.IH
      by (cases "filter (\<lambda>r. rk r = lk l) right") (auto simp: merge_left_Cons)
  qed
qed

section \<open>Group-wise fills\<close>

lemma length_ffill: "length (ffill key col seen rows) = length rows"
  by (induction rows arbitrary: seen) (auto split: option.splits)


lemma ffill_none:
  assumes "seen e = None" and "\<forall>r\<in>set rows. key r = e \<longrightarrow> col r = None"
  shows "list_all2 (\<lambda>r v. key r = e \<longrightarrow> v = None) rows (ffill key col seen rows)"
  using assms
proof (induction rows arbitrary: seen)
  case Nil
  show ?case by simp
next
  case (Cons r rows)
  show ?case
  proof (cases "col r")
    case None
    then show ?thesis using Cons by simp
  next
    case (Some v)
    then have "key r \<noteq> e" using Cons.prems by auto
    then have "(seen(key r \<mapsto> v)) e = None" using Cons.prems by simp
    then show ?thesis using Some Cons by simp
  qed
qed

section \<open>The filled column\<close>

lemma fill_history_alt:
  "fill_history ph hist =
     zip (map fst (joined_with ph hist))
       (map2 fillna (groupby_ffill (\<lambda>row. fst (fst row)) value_new (joined_with ph hist))
                    (groupby_bfill (\<lambda>row. fst (fst row)) value_old (joined_with ph hist)))"
  by (simp add: fill_history_def Let_def)

lemma map_fst_fill_history:
  "map fst (fill_history ph hist) = map fst (joined_with ph hist)"
  by (simp add: fill_history_alt groupby_ffill_def groupby_bfill_def length_ffill)

lemma fst_set_fill_history: "fst ` set (fill_history ph hist) = set ph"
proof -
  have "fst ` set (fill_history ph hist) = set (map fst (fill_history ph hist))" by simp
  also have "\<dots> = fst ` set (joined_with ph hist)" by (simp add: map_fst_fill_history)
  also have "\<dots> = set ph" by (rule fst_set_merge_left)
  finally show ?thesis .
qed

lemma fill_history_cells:
  assumes ff: "list_all2 P (joined_with ph hist)
                 (groupby_ffill (\<lambda>row. fst (fst row)) value_new (joined_with ph hist))"
    and fb: "list_all2 Q (joined_with ph hist)
                 (groupby_bfill (\<lambda>row. fst (fst row)) value_old (joined_with ph hist))"
    and pv: "(p, v) \<in> set (fill_history ph hist)"
  shows "\<exists>r f b. r \<in> set (joined_with ph hist) \<and> fst r = p \<and> P r f \<and> Q r b \<and> v = fillna f b"
proof -
  let ?j = "joined_with ph hist"
  let ?ff = "groupby_ffill (\<lambda>row. fst (fst row)) value_new ?j"
  let ?fb = "groupby_bfill (\<lambda>row. fst (fst row)) value_old ?j"
  have lf: "length ?ff = length ?j" and lb: "length ?fb = length ?j"
    by (simp_all add: groupby_ffill_def groupby_bfill_def length_ffill)
  from pv obtain i where i: "i < length ?j" "p = fst (?j ! i)" "v = fillna (?ff ! i) (?fb ! i)"
    unfolding fill_history_alt using lf lb by (auto simp: set_zip)
  have "P (?j ! i) (?ff ! i)" using ff i(1) by (simp add: list_all2_conv_all_nth)
  moreover have "Q (?j ! i) (?fb ! i)" using fb i(1) by (simp add: list_all2_conv_all_nth)
  ultimately show ?thesis using i by (metis nth_mem)
qed

lemma joined_with_cases:
  assumes "r \<in> set (joined_with ph hist)"
  shows "fst r \<in> set ph \<and>
         ((snd r = None \<and> (\<forall>h\<in>set hist. fst h \<noteq> (snd (fst r), fst (fst r)))) \<or>
          (\<exists>h\<in>set hist. snd r = Some h \<and> fst h = (snd (fst r), fst (fst r))))"
  using assms by (auto simp: set_merge_left split: prod.splits)


lemma fill_history_no_event:
  assumes none: "\<forall>h\<in>set hist. snd (fst h) = e \<longrightarrow> (e, fst (fst h)) \<notin> set ph"
    and pv: "(p, v) \<in> set (fill_history ph hist)" and pe: "fst p = e"
  shows "v = None"
proof -
  let ?j = "joined_with ph hist"
  let ?key = "\<lambda>row :: 'd placeholder \<times> 'd change option. fst (fst row)"
  have unmatched: "snd r = None" if r: "r \<in> set ?j" and e: "?key r = e" for r
  proof -
    from joined_with_cases [OF r] have inph: "fst r \<in> set ph"
      and cases: "snd r = None \<or>
          (\<exists>h\<in>set hist. snd r = Some h \<and> fst h = (snd (fst r), ?key r))" by blast+
    have "fst r = (e, snd (fst r))" using e by (simp add: prod_eq_iff)
    then have inph': "(e, snd (fst r)) \<in> set ph" using inph by simp
    have "\<not> (\<exists>h\<in>set hist. snd r = Some h \<and> fst h = (snd (fst r), ?key r))"
    proof
      assume "\<exists>h\<in>set hist. snd r = Some h \<and> fst h = (snd (fst r), ?key r)"
      then obtain h where h: "h \<in> set hist" "fst h = (snd (fst r), ?key r)" by blast
      then have "snd (fst h) = e" "fst (fst h) = snd (fst r)" using e by simp_all
      then show False using none h(1) inph' by force
    qed
    then show ?thesis using cases by blast
  qed
  have new: "\<forall>r\<in>set ?j. ?key r = e \<longrightarrow> value_new r = None"
    using unmatched by (simp add: value_new_def)
  have old: "\<forall>r\<in>set (rev ?j). ?key r = e \<longrightarrow> value_old r = None"
    using unmatched by (simp add: value_old_def)
  have emp: "Map.empty e = None" by simp
  have ff: "list_all2 (\<lambda>r v. ?key r = e \<longrightarrow> v = None) ?j (groupby_ffill ?key value_new ?j)"
    unfolding groupby_ffill_def
    by (rule ffill_none [where key = ?key and col = value_new and e = e and seen = Map.empty
                           and rows = ?j, OF emp new])
  have "list_all2 (\<lambda>r v. ?key r = e \<longrightarrow> v = None) (rev ?j) (ffill ?key value_old Map.empty (rev ?j))"
    by (rule ffill_none [where key = ?key and col = value_old and e = e and seen = Map.empty
                           and rows = "rev ?j", OF emp old])
  then have fb: "list_all2 (\<lambda>r v. ?key r = e \<longrightarrow> v = None) ?j (groupby_bfill ?key value_old ?j)"
    unfolding groupby_bfill_def by (simp only: list_all2_rev1)
  from fill_history_cells [OF ff fb pv]
  obtain r f g where r: "fst r = p" "?key r = e \<longrightarrow> f = None" "?key r = e \<longrightarrow> g = None"
     "v = fillna f g"
    by blast
  then show ?thesis using pe by (auto simp: fillna_def)
qed

lemma fst_set_fill_or_current: "fst ` set (fill_or_current ph hist cur name) = set ph"
proof (cases "hist = []")
  case True
  have "fst ` set (fill_or_current ph hist cur name) =
        fst ` set (merge_left fst cur_campaign_id ph cur)"
    by (force simp: fill_or_current_def True)
  then show ?thesis by (simp add: fst_set_merge_left)
next
  case False
  have "fst ` set (fill_or_current ph hist cur name) =
        fst ` fst ` set (merge_left (\<lambda>(p, _). fst p) cur_campaign_id (fill_history ph hist) cur)"
    by (force simp: fill_or_current_def False)
  then show ?thesis by (simp add: fst_set_merge_left fst_set_fill_history)
qed

lemma fill_or_current_cases:
  assumes "(p, v) \<in> set (fill_or_current ph hist cur name)"
  shows "(hist = [] \<and> p \<in> set ph \<and>
            ((v = None \<and> (\<forall>cv\<in>set cur. cur_campaign_id cv \<noteq> fst p)) \<or>
             (\<exists>cv\<in>set cur. cur_campaign_id cv = fst p \<and> v = column name (Some cv)))) \<or>
         (hist \<noteq> [] \<and> (p, v) \<in> set (fill_history ph hist) \<and> v \<noteq> None) \<or>
         (hist \<noteq> [] \<and> (p, None) \<in> set (fill_history ph hist) \<and>
            ((v = None \<and> (\<forall>cv\<in>set cur. cur_campaign_id cv \<noteq> fst p)) \<or>
             (\<exists>cv\<in>set cur. cur_campaign_id cv = fst p \<and> v = column name (Some cv))))"
proof (cases "hist = []")
  case True
  then show ?thesis
    using assms by (auto simp: fill_or_current_def set_merge_left column_def)
next
  case False
  then show ?thesis
    using assms
    by (auto simp: fill_or_current_def set_merge_left column_def split: option.splits)
qed

section \<open>The restored table\<close>



lemma map2_cast:
  "map2 (\<lambda>(p, _) v. (snd p, fst p, v)) rows (map (f \<circ> snd) rows) =
   map (\<lambda>(p, v). (snd p, fst p, f v)) rows"
  by (induction rows) auto

lemma restore_history_Inr:
  assumes "restore_history ph hist cur name = Inr t"
  shows "t = map (\<lambda>(p, v). (snd p, fst p,
                 if name = Target_roas then v else map_option (\<lambda>x. of_int (trunc x)) v))
               (fill_or_current ph hist cur name)"
    and "name \<noteq> Target_roas \<Longrightarrow> None \<notin> snd ` set (fill_or_current ph hist cur name)"
proof -
  show "t = map (\<lambda>(p, v). (snd p, fst p,
                 if name = Target_roas then v else map_option (\<lambda>x. of_int (trunc x)) v))
               (fill_or_current ph hist cur name)"
  proof (cases "name = Target_roas")
    case True
    then show ?thesis using assms by (auto simp: restore_history_def)
  next
    case False
    then show ?thesis
      using assms
      by (auto simp: restore_history_def Let_def astype_int_def map2_cast split: if_splits)
  qed
  show "None \<notin> snd ` set (fill_or_current ph hist cur name)" if "name \<noteq> Target_roas"
    using assms that
    by (auto simp: restore_history_def Let_def astype_int_def split: if_splits)
qed

lemma restore_history_Inl:
  "restore_history ph hist cur name = Inl err \<longleftrightarrow>
     err = IntCastingNaNError \<and> name \<noteq> Target_roas \<and>
     None \<in> snd ` set (fill_or_current ph hist cur name)"
  by (auto simp: restore_history_def Let_def astype_int_def split: if_splits)

lemma set_cells_restore_history:
  assumes "restore_history ph hist cur name = Inr t"
  shows "set (cells t d c) =
     (\<lambda>v. if name = Target_roas then v else map_option (\<lambda>x. of_int (trunc x)) v) `
       {v. ((c, d), v) \<in> set (fill_or_current ph hist cur name)}"
  unfolding restore_history_Inr(1) [OF assms] cells_def restored_key_def
  by (force simp: image_iff)

lemma set_placeholders: "set (placeholders campaign_ids ds) = set campaign_ids \<times> set ds"
  by (simp add: placeholders_def)


section \<open>Step-function fill\<close>



section \<open>No-event fallback\<close>

lemma fill_or_current_no_event:
  assumes none: "\<forall>h\<in>set hist. snd (fst h) = e \<longrightarrow> (e, fst (fst h)) \<notin> set ph"
    and pv: "((e, d), v) \<in> set (fill_or_current ph hist cur name)"
  shows "(v = None \<and> (\<forall>cv\<in>set cur. cur_campaign_id cv \<noteq> e)) \<or>
         (\<exists>cv\<in>set cur. cur_campaign_id cv = e \<and> v = column name (Some cv))"
proof -
  have "w = None" if "((e, d), w) \<in> set (fill_history ph hist)" for w
    using fill_history_no_event [OF none that] by simp
  then show ?thesis
    using fill_or_current_cases [OF pv] by fastforce
qed



section \<open>The cast\<close>

lemma trunc_bounds: "\<bar>of_int (trunc x)\<bar> \<le> \<bar>x\<bar> \<and> \<bar>x - of_int (trunc x)\<bar> < 1"
  unfolding trunc_def by (cases "0 \<le> x") (simp_all, linarith+)



section \<open>Missing current values\<close>

lemma fill_or_current_missing:
  assumes "e \<in> set campaign_ids" and "d \<in> set ds"
    and none: "\<forall>h\<in>set hist. snd (fst h) = e \<longrightarrow> fst (fst h) \<notin> set ds"
    and null: "\<forall>cv\<in>set cur. cur_campaign_id cv = e \<longrightarrow> column name (Some cv) = None"
  shows "{w. ((e, d), w) \<in> set (fill_or_current (placeholders campaign_ids ds) hist cur name)}
           = {None}"
proof -
  let ?ph = "placeholders campaign_ids ds"
  let ?rows = "fill_or_current ?ph hist cur name"
  have none': "\<forall>h\<in>set hist. snd (fst h) = e \<longrightarrow> (e, fst (fst h)) \<notin> set ?ph"
    using none by (simp add: set_placeholders)
  have "w = None" if "((e, d), w) \<in> set ?rows" for w
    using fill_or_current_no_event [OF none' that] null by auto
  moreover have "\<exists>w. ((e, d), w) \<in> set ?rows"
  proof -
    have "(e, d) \<in> fst ` set ?rows"
      using assms(1,2) by (simp add: fst_set_fill_or_current set_placeholders)
    then show ?thesis by force
  qed
  ultimately show ?thesis by blast
qed

lemma restore_history_missing_raises:
  assumes "e \<in> set campaign_ids" and "d \<in> set ds"
    and "\<forall>h\<in>set hist. snd (fst h) = e \<longrightarrow> fst (fst h) \<notin> set ds"
    and "\<forall>cv\<in>set cur. cur_campaign_id cv = e \<longrightarrow> column name (Some cv) = None"
    and "name \<noteq> Target_roas"
  shows "restore_history (placeholders campaign_ids ds) hist cur name = Inl IntCastingNaNError"
proof -
  have "((e, d), None) \<in> set (fill_or_current (placeholders campaign_ids ds) hist cur name)"
    using fill_or_current_missing [OF assms(1-4)] by blast
  then have "None \<in> snd ` set (fill_or_current (placeholders campaign_ids ds) hist cur name)"
    by force
  then show ?thesis using assms(5) by (simp add: restore_history_Inl)
qed

lemma restore_history_roas_returns:
  "\<exists>restored. restore_history placeholder_df hist cur Target_roas = Inr restored"
  by (simp add: restore_history_def)

text \<open>
  C8, as the code has it.  Campaign \<open>e\<close> of the grid has no event in the window and no
  current value (no row of the current values, or a missing cell).  For
  \<^verbatim>\<open>budget_amount\<close> and for \<^verbatim>\<open>target_cpa\<close> the run raises: the cast to integers meets
  the missing value.  For \<^verbatim>\<open>target_roas\<close> there is no cast: \<^verbatim>\<open>restore_history\<close>
  always returns, and the rows of \<open>e\<close> hold the missing value.
\<close>

theorem missing_snapshot_value:
  assumes "e \<in> set campaign_ids" and "d \<in> set ds"
  shows "((\<forall>h\<in>set budget_events. snd (fst h) = e \<longrightarrow> fst (fst h) \<notin> set ds) \<and>
          (\<forall>cv\<in>set cur. cur_campaign_id cv = e \<longrightarrow> budget_amount cv = None) \<longrightarrow>
            restored_bid_budget_history (placeholders campaign_ids ds) budget_events bid_events cur
              = Inl IntCastingNaNError) \<and>
         ((\<forall>h\<in>set bid_events. snd (fst h) = e \<longrightarrow> fst (fst h) \<notin> set ds) \<and>
          (\<forall>cv\<in>set cur. cur_campaign_id cv = e \<longrightarrow> target_cpa cv = None) \<longrightarrow>
            restored_bid_budget_history (placeholders campaign_ids ds) budget_events bid_events cur
              = Inl IntCastingNaNError) \<and>
         (\<exists>restored. restore_history (placeholders campaign_ids ds) events cur Target_roas
              = Inr restored \<and>
            ((\<forall>h\<in>set events. snd (fst h) = e \<longrightarrow> fst (fst h) \<notin> set ds) \<and>
             (\<forall>cv\<in>set cur. cur_campaign_id cv = e \<longrightarrow> target_roas cv = None) \<longrightarrow>
               set (cells restored d e) = {None}))"
proof (intro conjI impI)
  let ?ph = "placeholders campaign_ids ds"
  assume a: "(\<forall>h\<in>set budget_events. snd (fst h) = e \<longrightarrow> fst (fst h) \<notin> set ds) \<and>
          (\<forall>cv\<in>set cur. cur_campaign_id cv = e \<longrightarrow> budget_amount cv = None)"
  then have "restore_history ?ph budget_events cur Budget_amount = Inl IntCastingNaNError"
    by (intro restore_history_missing_raises [OF assms]) (simp_all add: column_def)
  then show "restored_bid_budget_history ?ph budget_events bid_events cur = Inl IntCastingNaNError"
    by (simp add: restored_bid_budget_history_def)
next
  let ?ph = "placeholders campaign_ids ds"
  assume a: "(\<forall>h\<in>set bid_events. snd (fst h) = e \<longrightarrow> fst (fst h) \<notin> set ds) \<and>
          (\<forall>cv\<in>set cur. cur_campaign_id cv = e \<longrightarrow> target_cpa cv = None)"
  then have cpa: "restore_history ?ph bid_events cur Target_cpa = Inl IntCastingNaNError"
    by (intro restore_history_missing_raises [OF assms]) (simp_all add: column_def)
  show "restored_bid_budget_history ?ph budget_events bid_events cur = Inl IntCastingNaNError"
  proof (cases "restore_history ?ph budget_events cur Budget_amount")
    case (Inl err)
    then have "err = IntCastingNaNError" by (simp add: restore_history_Inl)
    then show ?thesis using Inl by (simp add: restored_bid_budget_history_def)
  next
    case (Inr t)
    then show ?thesis using cpa by (simp add: restored_bid_budget_history_def)
  qed
next
  let ?ph = "placeholders campaign_ids ds"
  obtain restored where run: "restore_history ?ph events cur Target_roas = Inr restored"
    using restore_history_roas_returns by blast
  have "set (cells restored d e) = {None}"
    if "(\<forall>h\<in>set events. snd (fst h) = e \<longrightarrow> fst (fst h) \<notin> set ds) \<and>
             (\<forall>cv\<in>set cur. cur_campaign_id cv = e \<longrightarrow> target_roas cv = None)"
  proof -
    have "{w. ((e, d), w) \<in> set (fill_or_current ?ph events cur Target_roas)} = {None}"
      by (rule fill_or_current_missing [OF assms]) (use that in \<open>simp_all add: column_def\<close>)
    then show ?thesis
      unfolding set_cells_restore_history [OF run] by simp
  qed
  then show "\<exists>restored. restore_history ?ph events cur Target_roas = Inr restored \<and>
            ((\<forall>h\<in>set events. snd (fst h) = e \<longrightarrow> fst (fst h) \<notin> set ds) \<and>
             (\<forall>cv\<in>set cur. cur_campaign_id cv = e \<longrightarrow> target_roas cv = None) \<longrightarrow>
               set (cells restored d e) = {None})"
    using run by blast
qed

theorem missing_snapshot_value_witness:
  "restored_bid_budget_history (placeholders [111] [''2022-10-01'', ''2022-10-02''])
     [] [] [\<lparr>cur_campaign_id = 111, budget_amount = None, target_cpa = Some 7,
       target_roas = None\<rparr>] = Inl IntCastingNaNError \<and>
   restored_bid_budget_history (placeholders [111] [''2022-10-01'', ''2022-10-02''])
     [] [] [] = Inl IntCastingNaNError \<and>
   restore_history (placeholders [111] [''2022-10-01'', ''2022-10-02'']) [] [] Target_roas =
     Inr [(''2022-10-01'', 111, None), (''2022-10-02'', 111, None)]"
proof -
  let ?ds = "[''2022-10-01'', ''2022-10-02'']"
  let ?cur = "[\<lparr>cur_campaign_id = 111, budget_amount = None, target_cpa = Some 7,
       target_roas = None\<rparr>]"
  have h1: "(111 :: int) \<in> set [111]" and h2: "''2022-10-01'' \<in> set ?ds" by simp_all
  have null_value: "restored_bid_budget_history (placeholders [111] ?ds) [] [] ?cur
      = Inl IntCastingNaNError"
    using missing_snapshot_value [OF h1 h2, of "[]" ?cur "[]" "[]"] by simp
  have no_row: "restored_bid_budget_history (placeholders [111] ?ds) [] [] []
      = Inl IntCastingNaNError"
    using missing_snapshot_value [OF h1 h2, of "[]" "[]" "[]" "[]"] by simp
  have roas: "restore_history (placeholders [111] ?ds) [] [] Target_roas =
     Inr [(''2022-10-01'', 111, None), (''2022-10-02'', 111, None)]"
    by code_simp
  show ?thesis using null_value no_row roas by simp
qed

text \<open>
  C8 as stated fails for \<^verbatim>\<open>target_roas\<close>: a campaign with no events and a missing
  current \<^verbatim>\<open>target_roas\<close> goes through the three restorations and the merges without
  an error, and its rows carry the missing value.
\<close>

theorem missing_target_roas_counterexample:
  "restored_bid_budget_history (placeholders [111] [''2022-10-01'', ''2022-10-02''])
     (budgets []) (bids [])
     [\<lparr>cur_campaign_id = 111, budget_amount = Some 200, target_cpa = Some 7,
       target_roas = None\<rparr>] =
   Inr [(''2022-10-01'', 111, Some 200, Some 7, None),
        (''2022-10-02'', 111, Some 200, Some 7, None)]"
  by code_simp

section \<open>Cardinality of the combined history\<close>

lemma distinct_map_swap: "distinct (map prod.swap xs) = distinct xs"
  by (simp add: distinct_map)

lemma map_fst_fill_or_current:
  assumes "distinct (map fst hist)" and "distinct (map cur_campaign_id cur)"
  shows "map fst (fill_or_current ph hist cur name) = ph"
proof (cases "hist = []")
  case True
  have "map fst (fill_or_current ph hist cur name) =
        map fst (merge_left fst cur_campaign_id ph cur)"
    by (simp add: fill_or_current_def True case_prod_unfold comp_def)
  then show ?thesis by (simp add: merge_left_unique [OF assms(2)])
next
  case False
  have keys: "distinct (map (\<lambda>((d, c), _). (c, d)) hist)"
  proof -
    have "map (\<lambda>((d, c), _). (c, d)) hist = map prod.swap (map fst hist)"
      by (simp add: case_prod_unfold comp_def prod.swap_def)
    then show ?thesis using assms(1) by (simp only: distinct_map_swap)
  qed
  have "map fst (fill_or_current ph hist cur name) =
        map fst (map fst (merge_left (\<lambda>(p, _). fst p) cur_campaign_id (fill_history ph hist) cur))"
    by (simp add: fill_or_current_def False case_prod_unfold comp_def)
  also have "\<dots> = map fst (fill_history ph hist)"
    by (simp only: merge_left_unique [OF assms(2)])
  also have "\<dots> = map fst (joined_with ph hist)"
    by (rule map_fst_fill_history)
  also have "\<dots> = ph"
    by (rule merge_left_unique [OF keys])
  finally show ?thesis .
qed

lemma restore_history_keys:
  assumes "distinct (map fst hist)" and "distinct (map cur_campaign_id cur)"
    and "restore_history ph hist cur name = Inr restored"
  shows "map restored_key restored = map prod.swap ph"
proof -
  have "map restored_key restored = map prod.swap (map fst (fill_or_current ph hist cur name))"
    unfolding restore_history_Inr(1) [OF assms(3)]
    by (simp add: restored_key_def case_prod_unfold comp_def prod.swap_def)
  then show ?thesis by (simp add: map_fst_fill_or_current [OF assms(1,2)])
qed

lemma distinct_placeholders:
  "distinct campaign_ids \<Longrightarrow> distinct ds \<Longrightarrow> distinct (placeholders campaign_ids ds)"
  by (simp add: placeholders_def distinct_product)

lemma length_placeholders:
  "length (placeholders campaign_ids ds) = length campaign_ids * length ds"
  by (simp add: placeholders_def)

lemma combine_keys:
  assumes "distinct (map restored_key cpas)" and "distinct (map restored_key roas)"
  shows "map (\<lambda>(d, c, _). (d, c)) (combine budget cpas roas) = map restored_key budget"
proof -
  let ?m1 = "merge_left restored_key restored_key budget cpas"
  let ?m2 = "merge_left (\<lambda>(row, _). restored_key row) restored_key ?m1 roas"
  have "map (\<lambda>(d, c, _). (d, c)) (combine budget cpas roas) =
        map restored_key (map fst (map fst ?m2))"
    by (simp add: combine_def restored_key_def case_prod_unfold comp_def)
  also have "\<dots> = map restored_key (map fst ?m1)"
    by (simp only: merge_left_unique [OF assms(2)])
  also have "\<dots> = map restored_key budget"
    by (simp only: merge_left_unique [OF assms(1)])
  finally show ?thesis .
qed

text \<open>
  C4.  The campaign ids and the dates are distinct, the current values have at most one
  row per campaign, and each normalized event table has at most one row per
  \<open>(date, campaign_id)\<close>.  When the three restorations return, the combined history has
  the keys of the placeholder grid, row for row: one row per campaign and date,
  \<open>|E| \<times> |D|\<close> rows, none dropped and none repeated, and so has each restored table
  before the merges.
\<close>

theorem restored_bid_budget_history_cardinality:
  assumes "distinct campaign_ids" and "distinct ds"
    and "distinct (map cur_campaign_id current_bids_budgets)"
    and "distinct (map fst budget_events)" and "distinct (map fst bid_events)"
    and "restored_bid_budget_history (placeholders campaign_ids ds) budget_events bid_events
           current_bids_budgets = Inr history"
  shows "map (\<lambda>(d, c, _). (c, d)) history = placeholders campaign_ids ds \<and>
         length history = length campaign_ids * length ds \<and>
         distinct (map (\<lambda>(d, c, _). (c, d)) history) \<and>
         set (map (\<lambda>(d, c, _). (c, d)) history) = set campaign_ids \<times> set ds \<and>
         (\<exists>restored_budgets restored_target_cpas restored_target_roas.
            restore_history (placeholders campaign_ids ds) budget_events current_bids_budgets
              Budget_amount = Inr restored_budgets \<and>
            restore_history (placeholders campaign_ids ds) bid_events current_bids_budgets
              Target_cpa = Inr restored_target_cpas \<and>
            restore_history (placeholders campaign_ids ds) bid_events current_bids_budgets
              Target_roas = Inr restored_target_roas \<and>
            map (\<lambda>(d, c, _). (c, d)) restored_budgets = placeholders campaign_ids ds \<and>
            map (\<lambda>(d, c, _). (c, d)) restored_target_cpas = placeholders campaign_ids ds \<and>
            map (\<lambda>(d, c, _). (c, d)) restored_target_roas = placeholders campaign_ids ds)"
proof -
  let ?ph = "placeholders campaign_ids ds"
  from assms(6) obtain rb rc rr where
    rb: "restore_history ?ph budget_events current_bids_budgets Budget_amount = Inr rb" and
    rc: "restore_history ?ph bid_events current_bids_budgets Target_cpa = Inr rc" and
    rr: "restore_history ?ph bid_events current_bids_budgets Target_roas = Inr rr" and
    h: "history = combine rb rc rr"
    by (auto simp: restored_bid_budget_history_def split: sum.splits)
  have dph: "distinct ?ph" by (rule distinct_placeholders [OF assms(1,2)])
  have swap: "distinct (map prod.swap ?ph)"
    using dph by (simp only: distinct_map_swap)
  have kb: "map restored_key rb = map prod.swap ?ph"
    by (rule restore_history_keys [OF assms(4,3) rb])
  have kc: "map restored_key rc = map prod.swap ?ph"
    by (rule restore_history_keys [OF assms(5,3) rc])
  have kr: "map restored_key rr = map prod.swap ?ph"
    by (rule restore_history_keys [OF assms(5,3) rr])
  have unswap: "map (\<lambda>(d, c, _). (c, d)) t = map prod.swap (map restored_key t)"
    for t :: "'a restored list"
    by (simp add: restored_key_def case_prod_unfold comp_def)
  have "map (\<lambda>(d, c, _). (d, c)) history = map prod.swap ?ph"
    unfolding h using combine_keys [of rc rr rb] kb kc kr swap by simp
  then have "map prod.swap (map (\<lambda>(d, c, _). (d, c)) history) = map prod.swap (map prod.swap ?ph)"
    by simp
  then have keys: "map (\<lambda>(d, c, _). (c, d)) history = ?ph"
    by (simp add: case_prod_unfold comp_def)
  have len: "length history = length campaign_ids * length ds"
    using arg_cong [OF keys, of length] by (simp add: length_placeholders)
  have inter: "map (\<lambda>(d, c, _). (c, d)) rb = ?ph" "map (\<lambda>(d, c, _). (c, d)) rc = ?ph"
      "map (\<lambda>(d, c, _). (c, d)) rr = ?ph"
    unfolding unswap kb kc kr by (simp_all add: comp_def)
  show ?thesis
    using keys len dph rb rc rr inter by (simp add: set_placeholders)
qed

theorem restored_bid_budget_history_cardinality_witness:
  "restored_bid_budget_history (placeholders [111, 222] [''2022-10-01'', ''2022-10-02''])
     [((''2022-10-02'', 111), Some 100, Some 150)] [((''2022-10-01'', 222), Some 7, Some 9)]
     [\<lparr>cur_campaign_id = 111, budget_amount = Some 150, target_cpa = Some 5,
        target_roas = Some (3 / 2)\<rparr>,
      \<lparr>cur_campaign_id = 222, budget_amount = Some 200, target_cpa = Some 9,
        target_roas = Some 2\<rparr>] =
   Inr [(''2022-10-01'', 111, Some 100, Some 5, Some (3 / 2)),
        (''2022-10-02'', 111, Some 150, Some 5, Some (3 / 2)),
        (''2022-10-01'', 222, Some 200, Some 9, Some 9),
        (''2022-10-02'', 222, Some 200, Some 9, Some 9)] \<and>
   map (\<lambda>(d, c, _). (c, d))
       [(''2022-10-01'', 111 :: int, Some (100 :: rat), Some (5 :: rat), Some (3 / 2 :: rat)),
        (''2022-10-02'', 111, Some 150, Some 5, Some (3 / 2)),
        (''2022-10-01'', 222, Some 200, Some 9, Some 9),
        (''2022-10-02'', 222, Some 200, Some 9, Some 9)] =
     placeholders [111, 222] [''2022-10-01'', ''2022-10-02''] \<and>
   length
       [(''2022-10-01'', 111 :: int, Some (100 :: rat), Some (5 :: rat), Some (3 / 2 :: rat)),
        (''2022-10-02'', 111, Some 150, Some 5, Some (3 / 2)),
        (''2022-10-01'', 222, Some 200, Some 9, Some 9),
        (''2022-10-02'', 222, Some 200, Some 9, Some 9)] =
     length [111 :: int, 222] * length [''2022-10-01'', ''2022-10-02'']"
proof -
  let ?ds = "[''2022-10-01'', ''2022-10-02'']"
  let ?budgets = "[((''2022-10-02'', 111 :: int), Some (100 :: rat), Some (150 :: rat))]"
  let ?bids = "[((''2022-10-01'', 222 :: int), Some (7 :: rat), Some (9 :: rat))]"
  let ?cur = "[\<lparr>cur_campaign_id = 111, budget_amount = Some 150, target_cpa = Some 5,
        target_roas = Some (3 / 2)\<rparr>,
      \<lparr>cur_campaign_id = 222, budget_amount = Some 200, target_cpa = Some 9,
        target_roas = Some 2\<rparr>]"
  let ?h = "[(''2022-10-01'', 111 :: int, Some (100 :: rat), Some (5 :: rat), Some (3 / 2 :: rat)),
        (''2022-10-02'', 111, Some 150, Some 5, Some (3 / 2)),
        (''2022-10-01'', 222, Some 200, Some 9, Some 9),
        (''2022-10-02'', 222, Some 200, Some 9, Some 9)]"
  have run: "restored_bid_budget_history (placeholders [111, 222] ?ds) ?budgets ?bids ?cur = Inr ?h"
    by code_simp
  have h1: "distinct [111 :: int, 222]" and h2: "distinct ?ds"
    and h3: "distinct (map cur_campaign_id ?cur)"
    and h4: "distinct (map fst ?budgets)" and h5: "distinct (map fst ?bids)"
    by simp_all
  show ?thesis
    using restored_bid_budget_history_cardinality [OF h1 h2 h3 h4 h5 run] run by simp
qed

section \<open>Event normalization\<close>








lemma positive_iff: "positive v \<longleftrightarrow> (\<exists>x. v = Some x \<and> 0 < x)"
  by (cases v) (simp_all add: positive_def)






section \<open>The placeholder grid\<close>

lemma dates_upto: "dates strftime now = map strftime [now - 29..now - 1]"
  by (simp add: dates_def date_range_def)

lemma length_dates: "length (dates strftime now) = 29"
  by (simp add: dates_upto)

lemma nth_dates:
  assumes "i < 29"
  shows "dates strftime now ! i = strftime (now - 29 + int i)"
proof -
  have "i < length [now - 29..now - 1]" using assms by simp
  then show ?thesis
    unfolding dates_upto by (simp only: nth_map nth_upto) simp
qed

lemma distinct_dates: "inj strftime \<Longrightarrow> distinct (dates strftime now)"
  by (simp add: dates_upto distinct_map inj_on_def inj_def)

text \<open>
  C9.  The window has 29 dates: the days \<open>now - 29\<close>, \<open>now - 28\<close>, ... up to
  \<open>now - 1\<close>, the day before the run, one after the other with no gap.  With distinct
  campaign ids (the query selects them \<^verbatim>\<open>DISTINCT\<close>) and a date format that tells days
  apart, the placeholder table holds every pair of a campaign and a date of the window,
  each once.
\<close>

theorem placeholders_window:
  assumes "distinct campaign_ids" and "inj strftime"
  shows "length (dates strftime now) = 29 \<and>
         (\<forall>i<29. dates strftime now ! i = strftime (now - 29 + int i)) \<and>
         last (dates strftime now) = strftime (now - 1) \<and>
         distinct (dates strftime now) \<and>
         distinct (placeholders campaign_ids (dates strftime now)) \<and>
         set (placeholders campaign_ids (dates strftime now)) =
           set campaign_ids \<times> strftime ` {now - 29..now - 1} \<and>
         length (placeholders campaign_ids (dates strftime now)) = length campaign_ids * 29"
proof -
  have l: "last (dates strftime now) = strftime (now - 1)"
  proof -
    have "dates strftime now \<noteq> []" using length_dates [of strftime now] by auto
    then have "last (dates strftime now) = dates strftime now ! 28"
      using length_dates [of strftime now] by (simp add: last_conv_nth)
    then show ?thesis by (simp add: nth_dates)
  qed
  have s: "set (dates strftime now) = strftime ` {now - 29..now - 1}"
    by (simp add: dates_upto)
  show ?thesis
    using l s length_dates [of strftime now] nth_dates [of _ strftime now]
      distinct_dates [OF assms(2), of now]
      distinct_placeholders [OF assms(1) distinct_dates [OF assms(2), of now]]
    by (simp add: set_placeholders length_placeholders)
qed

theorem placeholders_window_witness:
  "dates (\<lambda>n. n) 30 =
     [1, 2, 3, 4, 5, 6, 7, 8, 9, 10, 11, 12, 13, 14, 15, 16, 17, 18, 19, 20, 21, 22, 23, 24, 25,
      26, 27, 28, 29] \<and>
   length (dates (\<lambda>n. n) 30) = 29 \<and>
   last (dates (\<lambda>n. n) 30) = 29 \<and>
   distinct (placeholders [111, 222] (dates (\<lambda>n. n) 30)) \<and>
   length (placeholders [111, 222] (dates (\<lambda>n. n) 30)) = 58"
proof -
  have h1: "distinct [111 :: int, 222]" by simp
  have h2: "inj (\<lambda>n :: int. n)" by simp
  have run: "dates (\<lambda>n. n) 30 =
     [1, 2, 3, 4, 5, 6, 7, 8, 9, 10, 11, 12, 13, 14, 15, 16, 17, 18, 19, 20, 21, 22, 23, 24, 25,
      26, 27, 28, 29]"
    by code_simp
  show ?thesis
    using placeholders_window [OF h1 h2, of 30] run by simp
qed

section \<open>The filters on the change history\<close>

text \<open>
  C10.  A row of the report is a budget event exactly when its old and its new
  \<^verbatim>\<open>budget_amount\<close> are both present and positive, and a bid event exactly when its
  old \<^verbatim>\<open>target_cpa\<close> is present and positive, whatever its new \<^verbatim>\<open>target_cpa\<close>.  A
  row that fails a filter can be taken out of the report without changing the event
  table of that filter, hence without changing any series restored from it; a row that
  fails both filters leaves the whole run unchanged.
\<close>

theorem change_history_filters:
  "(r \<in> set (budget_rows change_history) \<longleftrightarrow>
      r \<in> set change_history \<and>
      (\<exists>x y. old_budget_amount r = Some x \<and> 0 < x \<and> new_budget_amount r = Some y \<and> 0 < y)) \<and>
   (r \<in> set (bid_rows change_history) \<longleftrightarrow>
      r \<in> set change_history \<and> (\<exists>x. old_target_cpa r = Some x \<and> 0 < x)) \<and>
   (\<not> (\<exists>x y. old_budget_amount r = Some x \<and> 0 < x \<and> new_budget_amount r = Some y \<and> 0 < y)
      \<longrightarrow> budgets (earlier @ r # later) = budgets (earlier @ later)) \<and>
   (\<not> (\<exists>x. old_target_cpa r = Some x \<and> 0 < x)
      \<longrightarrow> bids (earlier @ r # later) = bids (earlier @ later)) \<and>
   (\<not> (\<exists>x y. old_budget_amount r = Some x \<and> 0 < x \<and> new_budget_amount r = Some y \<and> 0 < y) \<and>
    \<not> (\<exists>x. old_target_cpa r = Some x \<and> 0 < x)
      \<longrightarrow> main strftime now bq_project bq_dataset (earlier @ r # later) campaign_ids
            current_bids_budgets bq_client =
          main strftime now bq_project bq_dataset (earlier @ later) campaign_ids
            current_bids_budgets bq_client)"
proof -
  have "budget_rows (earlier @ r # later) = budget_rows (earlier @ later)"
    if "\<not> (\<exists>x y. old_budget_amount r = Some x \<and> 0 < x \<and> new_budget_amount r = Some y \<and> 0 < y)"
    using that by (auto simp: budget_rows_def positive_iff)
  then have b: "\<not> (\<exists>x y. old_budget_amount r = Some x \<and> 0 < x \<and> new_budget_amount r = Some y \<and> 0 < y)
      \<longrightarrow> budgets (earlier @ r # later) = budgets (earlier @ later)"
    by (simp add: budgets_def)
  have "bid_rows (earlier @ r # later) = bid_rows (earlier @ later)"
    if "\<not> (\<exists>x. old_target_cpa r = Some x \<and> 0 < x)"
    using that by (auto simp: bid_rows_def positive_iff)
  then have c: "\<not> (\<exists>x. old_target_cpa r = Some x \<and> 0 < x)
      \<longrightarrow> bids (earlier @ r # later) = bids (earlier @ later)"
    by (simp add: bids_def)
  have m: "(r \<in> set (budget_rows change_history) \<longleftrightarrow>
      r \<in> set change_history \<and>
      (\<exists>x y. old_budget_amount r = Some x \<and> 0 < x \<and> new_budget_amount r = Some y \<and> 0 < y))"
    "(r \<in> set (bid_rows change_history) \<longleftrightarrow>
      r \<in> set change_history \<and> (\<exists>x. old_target_cpa r = Some x \<and> 0 < x))"
    by (auto simp: budget_rows_def bid_rows_def positive_iff)
  have run: "main strftime now bq_project bq_dataset (earlier @ r # later) campaign_ids
            current_bids_budgets bq_client =
          main strftime now bq_project bq_dataset (earlier @ later) campaign_ids
            current_bids_budgets bq_client"
    if "budgets (earlier @ r # later) = budgets (earlier @ later)"
      and "bids (earlier @ r # later) = bids (earlier @ later)"
    using that by (simp add: main_def)
  show ?thesis using m b c run by blast
qed

theorem change_history_filters_witness:
  "budgets
     ([] @ \<lparr>change_date = ''2022-10-01 09:00:00'', campaign_id = 111, old_budget_amount = Some 0,
        new_budget_amount = Some 50, old_target_cpa = Some 10, new_target_cpa = Some 0\<rparr> #
      [\<lparr>change_date = ''2022-10-02 09:00:00'', campaign_id = 111, old_budget_amount = Some 50,
        new_budget_amount = Some 60, old_target_cpa = None, new_target_cpa = Some 4\<rparr>]) =
   budgets
     ([] @ [\<lparr>change_date = ''2022-10-02 09:00:00'', campaign_id = 111, old_budget_amount = Some 50,
        new_budget_amount = Some 60, old_target_cpa = None, new_target_cpa = Some 4\<rparr>]) \<and>
   bids
     ([\<lparr>change_date = ''2022-10-01 09:00:00'', campaign_id = 111, old_budget_amount = Some 0,
        new_budget_amount = Some 50, old_target_cpa = Some 10, new_target_cpa = Some 0\<rparr>] @
      \<lparr>change_date = ''2022-10-02 09:00:00'', campaign_id = 111, old_budget_amount = Some 50,
        new_budget_amount = Some 60, old_target_cpa = None, new_target_cpa = Some 4\<rparr> # []) =
   bids
     ([\<lparr>change_date = ''2022-10-01 09:00:00'', campaign_id = 111, old_budget_amount = Some 0,
        new_budget_amount = Some 50, old_target_cpa = Some 10, new_target_cpa = Some 0\<rparr>] @ []) \<and>
   \<lparr>change_date = ''2022-10-01 09:00:00'', campaign_id = 111, old_budget_amount = Some 0,
        new_budget_amount = Some 50, old_target_cpa = Some 10, new_target_cpa = Some 0\<rparr>
     \<in> set (bid_rows
       [\<lparr>change_date = ''2022-10-01 09:00:00'', campaign_id = 111, old_budget_amount = Some 0,
        new_budget_amount = Some 50, old_target_cpa = Some 10, new_target_cpa = Some 0\<rparr>])"
proof -
  let ?r0 = "\<lparr>change_date = ''2022-10-01 09:00:00'', campaign_id = 111, old_budget_amount = Some 0,
        new_budget_amount = Some 50, old_target_cpa = Some 10, new_target_cpa = Some 0\<rparr>"
  let ?r1 = "\<lparr>change_date = ''2022-10-02 09:00:00'', campaign_id = 111, old_budget_amount = Some 50,
        new_budget_amount = Some 60, old_target_cpa = None, new_target_cpa = Some 4\<rparr>"
  have a: "budgets ([] @ ?r0 # [?r1]) = budgets ([] @ [?r1])"
    using change_history_filters [of ?r0 "[]" "[]" "[?r1]"] by simp
  have b: "bids ([?r0] @ ?r1 # []) = bids ([?r0] @ [])"
    using change_history_filters [of ?r1 "[]" "[?r0]" "[]"] by simp
  have c: "?r0 \<in> set (bid_rows [?r0])"
    using change_history_filters [of ?r0 "[?r0]" "[]" "[]"] by simp
  show ?thesis using a b c by simp
qed

section \<open>The events behind each series\<close>

text \<open>
  C2 fails on the code.  \<^verbatim>\<open>main\<close> restores \<^verbatim>\<open>budget_amount\<close> from the budget events
  and \<^verbatim>\<open>target_cpa\<close> from the bid events, but it also passes the bid events, which
  carry old and new \<^verbatim>\<open>target_cpa\<close>, to the restoration of \<^verbatim>\<open>target_roas\<close>.  A
  campaign whose \<^verbatim>\<open>target_cpa\<close> went from 10 to 20 on the second day, with a current
  \<^verbatim>\<open>target_roas\<close> of 3/2 and no other change, gets the \<^verbatim>\<open>target_roas\<close> series
  10, 20, 20.
\<close>

theorem target_roas_restored_from_bids:
  "restored_bid_budget_history (placeholders [111] [''2022-10-01'', ''2022-10-02'', ''2022-10-03''])
     (budgets
        [\<lparr>change_date = ''2022-10-02 09:00:00'', campaign_id = 111, old_budget_amount = None,
           new_budget_amount = None, old_target_cpa = Some 10, new_target_cpa = Some 20\<rparr>])
     (bids
        [\<lparr>change_date = ''2022-10-02 09:00:00'', campaign_id = 111, old_budget_amount = None,
           new_budget_amount = None, old_target_cpa = Some 10, new_target_cpa = Some 20\<rparr>])
     [\<lparr>cur_campaign_id = 111, budget_amount = Some 200, target_cpa = Some 20,
        target_roas = Some (3 / 2)\<rparr>] =
   Inr [(''2022-10-01'', 111, Some 200, Some 10, Some 10),
        (''2022-10-02'', 111, Some 200, Some 20, Some 20),
        (''2022-10-03'', 111, Some 200, Some 20, Some 20)]"
  by code_simp

section \<open>Writing the dated tables\<close>

lemma write_data_to_bq_cases:
  "(write_data_to_bq c rows t = Inl Sink_failure \<longleftrightarrow> t \<in> failing c) \<and>
   (write_data_to_bq c rows t = Inl Conflict \<longleftrightarrow> t \<notin> failing c \<and> tables c t \<noteq> None) \<and>
   (write_data_to_bq c rows t = Inr c' \<longleftrightarrow>
      t \<notin> failing c \<and> tables c t = None \<and> c' = c\<lparr>tables := (tables c)(t \<mapsto> rows)\<rparr>) \<and>
   write_data_to_bq c rows t \<noteq> Inl IntCastingNaNError"
  by (auto simp: write_data_to_bq_def)

lemma write_dates_conflict:
  assumes "write_data_to_bq c (filter (\<lambda>row. fst row = date) history) (table_name p d date)
             = Inl Conflict"
  shows "write_dates p d history c w (date # rest) =
         write_dates p d history c (w @ [table_name p d date]) rest"
  using assms by (simp add: Let_def)

lemma write_dates_raise:
  assumes "write_data_to_bq c (filter (\<lambda>row. fst row = date) history) (table_name p d date)
             = Inl e" and "e \<noteq> Conflict"
  shows "write_dates p d history c w (date # rest) = Inl e"
  using assms by (cases e) (simp_all add: Let_def)

lemma write_dates_written:
  assumes "write_dates p d history c w ds = Inr (c', w')"
  shows "failing c' = failing c \<and>
         (\<forall>date\<in>set ds. table_name p d date \<notin> failing c \<and> tables c' (table_name p d date) \<noteq> None) \<and>
         (\<forall>t. tables c t \<noteq> None \<longrightarrow> tables c' t \<noteq> None)"
  using assms
proof (induction ds arbitrary: c w)
  case Nil
  then show ?case by simp
next
  case (Cons date ds)
  let ?t = "table_name p d date"
  let ?rows = "filter (\<lambda>row. fst row = date) history"
  show ?case
  proof (cases "write_data_to_bq c ?rows ?t")
    case (Inr written)
    then have w: "?t \<notin> failing c" "tables c ?t = None"
      "written = c\<lparr>tables := (tables c)(?t \<mapsto> ?rows)\<rparr>"
      by (simp_all add: write_data_to_bq_cases)
    have "write_dates p d history written w ds = Inr (c', w')"
      using Cons.prems Inr by (simp add: Let_def)
    from Cons.IH [OF this] have ih: "failing c' = failing written"
      "\<forall>date\<in>set ds. table_name p d date \<notin> failing written \<and>
          tables c' (table_name p d date) \<noteq> None"
      "\<forall>t. tables written t \<noteq> None \<longrightarrow> tables c' t \<noteq> None"
      by blast+
    have "tables written ?t \<noteq> None" using w(3) by simp
    then have here: "tables c' ?t \<noteq> None" using ih(3) by blast
    have keep: "\<forall>t. tables c t \<noteq> None \<longrightarrow> tables written t \<noteq> None" using w(3) by simp
    show ?thesis using ih here keep w by auto
  next
    case (Inl e)
    show ?thesis
    proof (cases "e = Conflict")
      case True
      then have w: "?t \<notin> failing c" "tables c ?t \<noteq> None"
        using Inl by (simp_all add: write_data_to_bq_cases)
      have "write_dates p d history c (w @ [?t]) ds = Inr (c', w')"
        using Cons.prems Inl True by (simp add: Let_def)
      from Cons.IH [OF this] have ih: "failing c' = failing c"
        "\<forall>date\<in>set ds. table_name p d date \<notin> failing c \<and>
          tables c' (table_name p d date) \<noteq> None"
        "\<forall>t. tables c t \<noteq> None \<longrightarrow> tables c' t \<noteq> None"
        by blast+
      show ?thesis using ih w by auto
    next
      case False
      then have "write_dates p d history c w (date # ds) = Inl e"
        using Inl by (rule_tac write_dates_raise) auto
      then show ?thesis using Cons.prems by simp
    qed
  qed
qed

lemma write_dates_all_exist:
  assumes "\<forall>date\<in>set ds. table_name p d date \<notin> failing c \<and> tables c (table_name p d date) \<noteq> None"
  shows "write_dates p d history c w ds = Inr (c, w @ map (table_name p d) ds)"
  using assms
proof (induction ds arbitrary: w)
  case Nil
  show ?case by simp
next
  case (Cons date ds)
  have "write_data_to_bq c (filter (\<lambda>row. fst row = date) history) (table_name p d date)
          = Inl Conflict"
    using Cons.prems by (simp add: write_data_to_bq_cases)
  then have "write_dates p d history c w (date # ds) =
             write_dates p d history c (w @ [table_name p d date]) ds"
    by (rule write_dates_conflict)
  also have "\<dots> = Inr (c, (w @ [table_name p d date]) @ map (table_name p d) ds)"
    using Cons.prems by (intro Cons.IH) simp
  finally show ?case by simp
qed

lemma write_dates_rerun:
  assumes "write_dates p d history c w ds = Inr (c', w')"
  shows "write_dates p d history' c' w'' ds = Inr (c', w'' @ map (table_name p d) ds)"
proof -
  from write_dates_written [OF assms]
  have "\<forall>date\<in>set ds. table_name p d date \<notin> failing c' \<and> tables c' (table_name p d date) \<noteq> None"
    by simp
  then show ?thesis by (rule write_dates_all_exist)
qed

lemma write_dates_returns:
  assumes "\<forall>date\<in>set ds. table_name p d date \<notin> failing c"
  shows "\<exists>c' w'. write_dates p d history c w ds = Inr (c', w')"
  using assms
proof (induction ds arbitrary: c w)
  case Nil
  show ?case by simp
next
  case (Cons date ds)
  let ?t = "table_name p d date"
  let ?rows = "filter (\<lambda>row. fst row = date) history"
  show ?case
  proof (cases "tables c ?t")
    case None
    let ?c = "c\<lparr>tables := (tables c)(?t \<mapsto> ?rows)\<rparr>"
    have "write_data_to_bq c ?rows ?t = Inr ?c"
      using Cons.prems None by (simp add: write_data_to_bq_cases)
    then have "write_dates p d history c w (date # ds) = write_dates p d history ?c w ds"
      by (simp add: Let_def)
    moreover have "\<exists>c' w'. write_dates p d history ?c w ds = Inr (c', w')"
      using Cons.prems by (intro Cons.IH) simp
    ultimately show ?thesis by simp
  next
    case (Some rows)
    have "write_data_to_bq c ?rows ?t = Inl Conflict"
      using Cons.prems Some by (simp add: write_data_to_bq_cases)
    then have "write_dates p d history c w (date # ds) =
               write_dates p d history c (w @ [?t]) ds"
      by (rule write_dates_conflict)
    moreover have "\<exists>c' w'. write_dates p d history c (w @ [?t]) ds = Inr (c', w')"
      using Cons.prems by (intro Cons.IH) simp
    ultimately show ?thesis by simp
  qed
qed

text \<open>
  C6.  In the loop over the dates, a write that raises \<^verbatim>\<open>Conflict\<close> leaves the
  destination as it is, adds the table id to the warnings and goes on with the next
  date; a write that raises anything else ends the run with that exception.  A run of
  \<^verbatim>\<open>main\<close> that went through all dates has every dated table in place, so a second run
  on the same inputs against the destination it left gets \<^verbatim>\<open>Conflict\<close> at every date:
  it reports every table and leaves the destination unchanged, no row added.
\<close>

theorem write_dates_create_if_absent:
  "(write_data_to_bq bq_client (filter (\<lambda>row. fst row = date) history)
        (table_name bq_project bq_dataset date) = Inl Conflict \<longrightarrow>
      write_dates bq_project bq_dataset history bq_client warnings (date # rest) =
      write_dates bq_project bq_dataset history bq_client
        (warnings @ [table_name bq_project bq_dataset date]) rest) \<and>
   (write_data_to_bq bq_client (filter (\<lambda>row. fst row = date) history)
        (table_name bq_project bq_dataset date) = Inl Sink_failure \<longrightarrow>
      write_dates bq_project bq_dataset history bq_client warnings (date # rest) =
      Inl Sink_failure) \<and>
   (main strftime now bq_project bq_dataset change_history campaign_ids current_bids_budgets
        bq_client = Inr (written, logged) \<longrightarrow>
      main strftime now bq_project bq_dataset change_history campaign_ids current_bids_budgets
        written = Inr (written, map (table_name bq_project bq_dataset) (dates strftime now)))"
proof (intro conjI impI)
  assume "write_data_to_bq bq_client (filter (\<lambda>row. fst row = date) history)
        (table_name bq_project bq_dataset date) = Inl Conflict"
  then show "write_dates bq_project bq_dataset history bq_client warnings (date # rest) =
      write_dates bq_project bq_dataset history bq_client
        (warnings @ [table_name bq_project bq_dataset date]) rest"
    by (rule write_dates_conflict)
next
  assume "write_data_to_bq bq_client (filter (\<lambda>row. fst row = date) history)
        (table_name bq_project bq_dataset date) = Inl Sink_failure"
  then show "write_dates bq_project bq_dataset history bq_client warnings (date # rest) =
      Inl Sink_failure"
    by (rule write_dates_raise) simp
next
  let ?ph = "placeholders campaign_ids (dates strftime now)"
  assume run: "main strftime now bq_project bq_dataset change_history campaign_ids
     current_bids_budgets bq_client = Inr (written, logged)"
  then obtain h where
    h: "restored_bid_budget_history ?ph (budgets change_history) (bids change_history)
          current_bids_budgets = Inr h"
    and w: "write_dates bq_project bq_dataset h bq_client [] (dates strftime now)
          = Inr (written, logged)"
    by (auto simp: main_def Let_def split: sum.splits)
  have "write_dates bq_project bq_dataset h written [] (dates strftime now) =
        Inr (written, [] @ map (table_name bq_project bq_dataset) (dates strftime now))"
    by (rule write_dates_rerun [OF w])
  then show "main strftime now bq_project bq_dataset change_history campaign_ids
     current_bids_budgets written =
     Inr (written, map (table_name bq_project bq_dataset) (dates strftime now))"
    using h by (simp add: main_def Let_def)
qed

theorem write_dates_create_if_absent_witness:
  "(\<exists>written logged.
      main (\<lambda>n. ''2022-10-'' @ [char_of (48 + n div 10), char_of (48 + n mod 10)]) 30
        ''project'' ''dataset'' [] [111]
        [\<lparr>cur_campaign_id = 111, budget_amount = Some 200, target_cpa = Some 7,
           target_roas = Some (3 / 2)\<rparr>]
        \<lparr>tables = Map.empty, failing = {}\<rparr> = Inr (written, logged) \<and>
      main (\<lambda>n. ''2022-10-'' @ [char_of (48 + n div 10), char_of (48 + n mod 10)]) 30
        ''project'' ''dataset'' [] [111]
        [\<lparr>cur_campaign_id = 111, budget_amount = Some 200, target_cpa = Some 7,
           target_roas = Some (3 / 2)\<rparr>]
        written =
        Inr (written, map (table_name ''project'' ''dataset'')
          (dates (\<lambda>n. ''2022-10-'' @ [char_of (48 + n div 10), char_of (48 + n mod 10)]) 30))) \<and>
   write_dates ''project'' ''dataset'' []
     \<lparr>tables = [''project.dataset.bid_budgets_20221001'' \<mapsto> []],
      failing = {''project.dataset.bid_budgets_20221002''}\<rparr> []
     [''2022-10-01'', ''2022-10-02''] =
   write_dates ''project'' ''dataset'' []
     \<lparr>tables = [''project.dataset.bid_budgets_20221001'' \<mapsto> []],
      failing = {''project.dataset.bid_budgets_20221002''}\<rparr>
     [''project.dataset.bid_budgets_20221001''] [''2022-10-02''] \<and>
   write_dates ''project'' ''dataset'' []
     \<lparr>tables = [''project.dataset.bid_budgets_20221001'' \<mapsto> []],
      failing = {''project.dataset.bid_budgets_20221002''}\<rparr>
     [''project.dataset.bid_budgets_20221001''] [''2022-10-02''] = Inl Sink_failure"
proof -
  let ?strftime = "\<lambda>n :: int. ''2022-10-'' @ [char_of (48 + n div 10), char_of (48 + n mod 10)]"
  let ?cur = "[\<lparr>cur_campaign_id = 111, budget_amount = Some 200, target_cpa = Some 7,
           target_roas = Some (3 / 2)\<rparr>]"
  let ?c0 = "\<lparr>tables = Map.empty, failing = {}\<rparr>"
  let ?c1 = "\<lparr>tables = [''project.dataset.bid_budgets_20221001'' \<mapsto> []],
      failing = {''project.dataset.bid_budgets_20221002''}\<rparr>"
  have "\<not> isl (restored_bid_budget_history (placeholders [111] (dates ?strftime 30))
           (budgets []) (bids []) ?cur)"
    by code_simp
  then obtain h where h: "restored_bid_budget_history (placeholders [111] (dates ?strftime 30))
           (budgets []) (bids []) ?cur = Inr h"
    by (cases "restored_bid_budget_history (placeholders [111] (dates ?strftime 30))
           (budgets []) (bids []) ?cur") auto
  obtain written logged where
    w: "write_dates ''project'' ''dataset'' h ?c0 [] (dates ?strftime 30) = Inr (written, logged)"
    using write_dates_returns [of "dates ?strftime 30" "''project''" "''dataset''" ?c0 h "[]"]
    by auto
  have first: "main ?strftime 30 ''project'' ''dataset'' [] [111] ?cur ?c0 = Inr (written, logged)"
    using h w by (simp add: main_def Let_def)
  have second: "main ?strftime 30 ''project'' ''dataset'' [] [111] ?cur written =
      Inr (written, map (table_name ''project'' ''dataset'') (dates ?strftime 30))"
    using write_dates_create_if_absent
      [where bq_client = ?c0 and strftime = ?strftime and now = 30 and bq_project = "''project''"
         and bq_dataset = "''dataset''" and change_history = "[]" and campaign_ids = "[111]"
         and current_bids_budgets = ?cur and written = written and logged = logged]
      first
    by blast
  have t1: "table_name ''project'' ''dataset'' ''2022-10-01'' = ''project.dataset.bid_budgets_20221001''"
    and t2: "table_name ''project'' ''dataset'' ''2022-10-02'' = ''project.dataset.bid_budgets_20221002''"
    by (simp_all add: table_name_def)
  have conflict: "write_data_to_bq ?c1 (filter (\<lambda>row. fst row = ''2022-10-01'') [])
      (table_name ''project'' ''dataset'' ''2022-10-01'') = Inl Conflict"
    by (simp add: t1 write_data_to_bq_def)
  have failure: "write_data_to_bq ?c1 (filter (\<lambda>row. fst row = ''2022-10-02'') [])
      (table_name ''project'' ''dataset'' ''2022-10-02'') = Inl Sink_failure"
    by (simp add: t2 write_data_to_bq_def)
  have skip: "write_dates ''project'' ''dataset'' [] ?c1 [] [''2022-10-01'', ''2022-10-02''] =
      write_dates ''project'' ''dataset'' [] ?c1 [''project.dataset.bid_budgets_20221001'']
        [''2022-10-02'']"
    using write_dates_create_if_absent
      [where bq_client = ?c1 and date = "''2022-10-01''" and history = "[]"
         and bq_project = "''project''" and bq_dataset = "''dataset''" and warnings = "[]"
         and rest = "[''2022-10-02'']"]
      conflict
    by (simp add: t1)
  have abort: "write_dates ''project'' ''dataset'' [] ?c1 [''project.dataset.bid_budgets_20221001'']
        [''2022-10-02''] = Inl Sink_failure"
    using write_dates_create_if_absent
      [where bq_client = ?c1 and date = "''2022-10-02''" and history = "[]"
         and bq_project = "''project''" and bq_dataset = "''dataset''"
         and warnings = "[''project.dataset.bid_budgets_20221001'']" and rest = "[]"]
      failure
    by blast
  show ?thesis using first second skip abort by blast
qed

end
